theory Spec2Isabelle
  imports Main
begin

section \<open>The page: the document and the library's two slots\<close>

text \<open>
  The library is one closure over the document.  Its own state is the two variables
  \<open>activeMenu\<close> and \<open>lastRightClickedElement\<close>; everything else it reads or writes
  lives in the document.  A page is that whole store.  Elements are handles; \<open>null\<close>
  is \<open>None\<close>.

  The first block of fields is the part of the document the library only reads: the tree
  (for \<open>closest\<close>, \<open>contains\<close> and \<open>querySelectorAll\<close>), the id table, the
  \<open>:disabled\<close> pseudo-class, the measured boxes and the viewport.  The second block is
  what the library writes.  Pixel quantities are integers, on which the arithmetic of
  JavaScript numbers is exact.  A call of \<open>focus()\<close> is taken to succeed: it makes its
  element the document's active element (whether a browser honours the call for an
  element that is not rendered is the browser's business, and every statement below about
  focus is a statement about which element \<open>focus()\<close> is called on).  \<open>dispatched\<close> is
  the sequence of custom events the library has dispatched, and \<open>frameQueue\<close> the
  callbacks handed to \<open>requestAnimationFrame\<close> that have not run yet.  Listeners of
  the host page are not part of the library and are not modelled.
\<close>

type_synonym elem = nat

datatype notification =
    Shown elem elem int int   \<comment> \<open>\<open>show.bs.contextmenu\<close> on a menu, detail trigger, x, y\<close>
  | Hidden elem "elem option" \<comment> \<open>\<open>hide.bs.contextmenu\<close> on a menu, detail trigger\<close>

record page =
  ancestors :: "elem \<Rightarrow> elem list"          \<comment> \<open>proper ancestors, nearest first\<close>
  descendants :: "elem \<Rightarrow> elem list"        \<comment> \<open>proper descendants, document order\<close>
  elementById :: "string \<Rightarrow> elem option"
  pseudoDisabled :: "elem \<Rightarrow> bool"
  boundingRect :: "elem \<Rightarrow> int \<times> int"       \<comment> \<open>width and height of \<open>getBoundingClientRect\<close>\<close>
  innerWidth :: int
  innerHeight :: int
  body :: elem
  attrs :: "elem \<Rightarrow> string \<Rightarrow> string option"
  classList :: "elem \<Rightarrow> string list"
  styleLeft :: "elem \<Rightarrow> int option"
  styleTop :: "elem \<Rightarrow> int option"
  bsContextMenuTrigger :: "elem \<Rightarrow> elem option"
  activeElement :: "elem option"
  dispatched :: "notification list"
  frameQueue :: "(elem \<times> int \<times> int) list"
  activeMenu :: "elem option"
  lastRightClickedElement :: "elem option"

record mouse_event =
  target :: elem
  clientX :: int
  clientY :: int
  defaultPrevented :: bool
  propagationStopped :: bool

record key_event =
  key :: string
  shiftKey :: bool
  keyDefaultPrevented :: bool

abbreviation CONTEXT_MENU_ATTR :: string where
  "CONTEXT_MENU_ATTR \<equiv> ''data-bs-context-menu''"

abbreviation CONTEXT_MENU_CLASS :: string where
  "CONTEXT_MENU_CLASS \<equiv> ''context-menu''"

abbreviation SHOW_CLASS :: string where
  "SHOW_CLASS \<equiv> ''show''"

subsection \<open>The DOM operations the library calls\<close>

definition hasAttribute :: "page \<Rightarrow> string \<Rightarrow> elem \<Rightarrow> bool" where
  "hasAttribute s a e = (attrs s e a \<noteq> None)"

definition hasClass :: "page \<Rightarrow> string \<Rightarrow> elem \<Rightarrow> bool" where
  "hasClass s c e = (c \<in> set (classList s e))"

definition setAttribute :: "page \<Rightarrow> elem \<Rightarrow> string \<Rightarrow> string \<Rightarrow> page" where
  "setAttribute s e a v = s\<lparr>attrs := (attrs s)(e := (attrs s e)(a \<mapsto> v))\<rparr>"

definition classList_add :: "page \<Rightarrow> elem \<Rightarrow> string \<Rightarrow> page" where
  "classList_add s e c =
     s\<lparr>classList := (classList s)(e := (if c \<in> set (classList s e) then classList s e
                                          else classList s e @ [c]))\<rparr>"

definition classList_remove :: "page \<Rightarrow> elem \<Rightarrow> string \<Rightarrow> page" where
  "classList_remove s e c = s\<lparr>classList := (classList s)(e := removeAll c (classList s e))\<rparr>"

text \<open>\<open>e.closest(sel)\<close>: the element itself or its nearest ancestor matching the selector.\<close>

definition closest :: "page \<Rightarrow> (elem \<Rightarrow> bool) \<Rightarrow> elem \<Rightarrow> elem option" where
  "closest s sel e = find sel (e # ancestors s e)"

text \<open>\<open>m.contains(e)\<close>: \<open>e\<close> is \<open>m\<close> or a descendant of \<open>m\<close>.\<close>

definition contains :: "page \<Rightarrow> elem \<Rightarrow> elem \<Rightarrow> bool" where
  "contains s m e = (m \<in> set (e # ancestors s e))"

definition querySelectorAll :: "page \<Rightarrow> elem \<Rightarrow> (elem \<Rightarrow> bool) \<Rightarrow> elem list" where
  "querySelectorAll s m sel = filter sel (descendants s m)"

definition querySelector :: "page \<Rightarrow> elem \<Rightarrow> (elem \<Rightarrow> bool) \<Rightarrow> elem option" where
  "querySelector s m sel = find sel (descendants s m)"

text \<open>The selector \<open>.dropdown-item:not(.disabled):not(:disabled)\<close>.\<close>

definition enabledItem :: "page \<Rightarrow> elem \<Rightarrow> bool" where
  "enabledItem s e =
     (hasClass s ''dropdown-item'' e \<and> \<not> hasClass s ''disabled'' e \<and> \<not> pseudoDisabled s e)"

definition focus :: "page \<Rightarrow> elem \<Rightarrow> page" where
  "focus s e = s\<lparr>activeElement := Some e\<rparr>"

definition dispatchEvent :: "page \<Rightarrow> notification \<Rightarrow> page" where
  "dispatchEvent s n = s\<lparr>dispatched := dispatched s @ [n]\<rparr>"

definition requestAnimationFrame :: "page \<Rightarrow> elem \<times> int \<times> int \<Rightarrow> page" where
  "requestAnimationFrame s cb = s\<lparr>frameQueue := frameQueue s @ [cb]\<rparr>"

text \<open>\<open>items.indexOf(x)\<close>: the first index of \<open>x\<close>, or \<open>-1\<close>.\<close>

fun indexOf :: "'a list \<Rightarrow> 'a \<Rightarrow> int" where
  "indexOf [] x = - 1"
| "indexOf (y # ys) x =
     (if y = x then 0 else (let i = indexOf ys x in if i = - 1 then - 1 else i + 1))"

text \<open>The remainder operator \<open>%\<close> of JavaScript takes the sign of the dividend.\<close>

definition js_rem :: "int \<Rightarrow> int \<Rightarrow> int" where
  "js_rem a b = sgn a * (\<bar>a\<bar> mod \<bar>b\<bar>)"

section \<open>The library\<close>

subsection \<open>\<open>adjustMenuPosition\<close>\<close>

definition adjustMenuPosition :: "page \<Rightarrow> elem \<Rightarrow> int \<Rightarrow> int \<Rightarrow> page" where
  "adjustMenuPosition s menu x y =
     (let rect = boundingRect s menu;
          viewportWidth = innerWidth s;
          viewportHeight = innerHeight s;
          newX = (if x + fst rect > viewportWidth
                  then max 0 (viewportWidth - fst rect - 5) else x);
          newY = (if y + snd rect > viewportHeight
                  then max 0 (viewportHeight - snd rect - 5) else y)
      in s\<lparr>styleLeft := (styleLeft s)(menu \<mapsto> newX),
           styleTop := (styleTop s)(menu \<mapsto> newY)\<rparr>)"

subsection \<open>\<open>showMenu\<close> and its deferred callback\<close>

text \<open>
  The arrow function passed to \<open>requestAnimationFrame\<close> closes over \<open>menu\<close>, \<open>x\<close> and
  \<open>y\<close>; the queue holds these three, and \<open>frameCallback\<close> is its body.
\<close>

definition frameCallback :: "page \<Rightarrow> elem \<times> int \<times> int \<Rightarrow> page" where
  "frameCallback s cb =
     (case cb of (menu, x, y) \<Rightarrow>
        (let s1 = adjustMenuPosition s menu x y
         in case querySelector s1 menu (enabledItem s1) of
              None \<Rightarrow> s1
            | Some firstItem \<Rightarrow> focus s1 firstItem))"

definition showMenu :: "page \<Rightarrow> elem \<Rightarrow> int \<Rightarrow> int \<Rightarrow> elem \<Rightarrow> page" where
  "showMenu s menu x y trigger =
     (let s1 = s\<lparr>activeMenu := Some menu\<rparr>;
          s2 = setAttribute s1 trigger ''aria-expanded'' ''true'';
          s3 = s2\<lparr>styleLeft := (styleLeft s2)(menu \<mapsto> x)\<rparr>;
          s4 = s3\<lparr>styleTop := (styleTop s3)(menu \<mapsto> y)\<rparr>;
          s5 = classList_add s4 menu SHOW_CLASS;
          s6 = s5\<lparr>bsContextMenuTrigger := (bsContextMenuTrigger s5)(menu \<mapsto> trigger)\<rparr>;
          s7 = requestAnimationFrame s6 (menu, x, y)
      in dispatchEvent s7 (Shown menu trigger x y))"

subsection \<open>\<open>hideActiveMenu\<close>\<close>

definition hideActiveMenu :: "page \<Rightarrow> page" where
  "hideActiveMenu s =
     (case activeMenu s of
        None \<Rightarrow> s
      | Some menu \<Rightarrow>
          (let trigger = bsContextMenuTrigger s menu;
               s1 = (case trigger of
                       None \<Rightarrow> s
                     | Some t \<Rightarrow> focus (setAttribute s t ''aria-expanded'' ''false'') t);
               s2 = classList_remove s1 menu SHOW_CLASS;
               s3 = dispatchEvent s2 (Hidden menu trigger);
               s4 = s3\<lparr>bsContextMenuTrigger := (bsContextMenuTrigger s3)(menu := None)\<rparr>
           in s4\<lparr>activeMenu := None\<rparr>))"

subsection \<open>\<open>handleContextMenu\<close>\<close>

definition handleContextMenu :: "page \<Rightarrow> mouse_event \<Rightarrow> page \<times> mouse_event" where
  "handleContextMenu s event =
     (case closest s (hasAttribute s CONTEXT_MENU_ATTR) (target event) of
        None \<Rightarrow> (s\<lparr>lastRightClickedElement := None\<rparr>, event)
      | Some trigger \<Rightarrow>
          (case attrs s trigger CONTEXT_MENU_ATTR of
             None \<Rightarrow> (s, event)
           | Some menuId \<Rightarrow>
               if menuId = [] then (s, event)
               else
                 (case elementById s menuId of
                    None \<Rightarrow> (s, event)
                  | Some menu \<Rightarrow>
                      if \<not> hasClass s CONTEXT_MENU_CLASS menu then (s, event)
                      else if lastRightClickedElement s = Some trigger
                      then (hideActiveMenu (s\<lparr>lastRightClickedElement := None\<rparr>), event)
                      else
                        (let s1 = s\<lparr>lastRightClickedElement := Some trigger\<rparr>;
                             event1 = event\<lparr>defaultPrevented := True\<rparr>;
                             event2 = event1\<lparr>propagationStopped := True\<rparr>;
                             s2 = hideActiveMenu s1
                         in (showMenu s2 menu (clientX event) (clientY event) trigger,
                             event2)))))"

subsection \<open>\<open>handleClickOutside\<close>\<close>

definition handleClickOutside :: "page \<Rightarrow> mouse_event \<Rightarrow> page \<times> mouse_event" where
  "handleClickOutside s event =
     (case activeMenu s of
        None \<Rightarrow> (s, event)
      | Some menu \<Rightarrow>
          if contains s menu (target event)
          then
            (if closest s (hasClass s ''dropdown-item'') (target event) \<noteq> None
             then (hideActiveMenu (s\<lparr>lastRightClickedElement := None\<rparr>),
                   event\<lparr>defaultPrevented := True\<rparr>)
             else (s, event))
          else (hideActiveMenu (s\<lparr>lastRightClickedElement := None\<rparr>), event))"

subsection \<open>\<open>focusNextItem\<close>\<close>

text \<open>
  \<open>items[nextIndex]?.focus()\<close> does nothing when the index is outside the array, which
  the remainder of JavaScript allows for a direction other than \<open>1\<close> and \<open>-1\<close>.
\<close>

definition focusNextItem :: "page \<Rightarrow> int \<Rightarrow> page" where
  "focusNextItem s direction =
     (case activeMenu s of
        None \<Rightarrow> s
      | Some menu \<Rightarrow>
          (let items = querySelectorAll s menu (enabledItem s)
           in if length items = 0 then s
              else
                (let currentIndex =
                       (case activeElement s of None \<Rightarrow> - 1 | Some a \<Rightarrow> indexOf items a);
                     nextIndex =
                       (if currentIndex = - 1
                        then (if direction = 1 then 0 else int (length items) - 1)
                        else js_rem (currentIndex + direction + int (length items))
                               (int (length items)))
                 in if 0 \<le> nextIndex \<and> nextIndex < int (length items)
                    then focus s (items ! nat nextIndex) else s)))"

subsection \<open>\<open>handleKeyDown\<close>\<close>

text \<open>
  \<open>element.click()\<close> dispatches a click event at the element, which reaches the
  document's click listener, \<open>handleClickOutside\<close>; a disabled form control dispatches
  nothing.  Handlers the host page puts on the item are the page's, not the library's.
\<close>

definition click :: "page \<Rightarrow> elem \<Rightarrow> page" where
  "click s e =
     (if pseudoDisabled s e then s
      else fst (handleClickOutside s
                  \<lparr>target = e, clientX = 0, clientY = 0,
                   defaultPrevented = False, propagationStopped = False\<rparr>))"

definition handleKeyDown :: "page \<Rightarrow> key_event \<Rightarrow> page \<times> key_event" where
  "handleKeyDown s event =
     (case activeMenu s of
        None \<Rightarrow> (s, event)
      | Some menu \<Rightarrow>
          if key event = ''Escape''
          then (hideActiveMenu s, event\<lparr>keyDefaultPrevented := True\<rparr>)
          else if key event = ''ArrowDown''
          then (focusNextItem s 1, event\<lparr>keyDefaultPrevented := True\<rparr>)
          else if key event = ''ArrowUp''
          then (focusNextItem s (- 1), event\<lparr>keyDefaultPrevented := True\<rparr>)
          else if key event = ''Enter'' \<or> key event = '' ''
          then
            (case activeElement s of
               None \<Rightarrow> (s, event)
             | Some a \<Rightarrow>
                 if hasClass s ''dropdown-item'' a
                 then (click s a, event\<lparr>keyDefaultPrevented := True\<rparr>)
                 else (s, event))
          else if key event = ''Tab''
          then (focusNextItem s (if shiftKey event then - 1 else 1),
                event\<lparr>keyDefaultPrevented := True\<rparr>)
          else (s, event))"

subsection \<open>The public API and the listeners of \<open>init\<close>\<close>

datatype menu_ref = ById string | ByElement elem

definition api_show :: "page \<Rightarrow> menu_ref \<Rightarrow> int \<Rightarrow> int \<Rightarrow> elem option \<Rightarrow> page" where
  "api_show s menuOrId x y trigger =
     (case (case menuOrId of ById i \<Rightarrow> elementById s i | ByElement e \<Rightarrow> Some e) of
        None \<Rightarrow> s
      | Some menu \<Rightarrow>
          if hasClass s CONTEXT_MENU_CLASS menu
          then showMenu (hideActiveMenu s) menu x y
                 (case trigger of None \<Rightarrow> body s | Some t \<Rightarrow> t)
          else s)"

definition api_hide :: "page \<Rightarrow> page" where
  "api_hide s = hideActiveMenu s"

text \<open>
  What can happen to a page: the five listeners \<open>init\<close> registers, the two state-changing
  API calls, and the browser running the pending animation-frame callbacks in order.
\<close>

datatype input =
    ContextMenuEv mouse_event
  | ClickEv mouse_event
  | KeyDownEv key_event
  | ScrollEv
  | ResizeEv
  | AnimationFrame
  | ApiShow menu_ref int int "elem option"
  | ApiHide

definition animationFrame :: "page \<Rightarrow> page" where
  "animationFrame s = foldl frameCallback (s\<lparr>frameQueue := []\<rparr>) (frameQueue s)"

fun step :: "page \<Rightarrow> input \<Rightarrow> page" where
  "step s (ContextMenuEv ev) = fst (handleContextMenu s ev)"
| "step s (ClickEv ev) = fst (handleClickOutside s ev)"
| "step s (KeyDownEv ev) = fst (handleKeyDown s ev)"
| "step s ScrollEv = hideActiveMenu s"
| "step s ResizeEv = hideActiveMenu s"
| "step s AnimationFrame = animationFrame s"
| "step s (ApiShow m x y t) = api_show s m x y t"
| "step s ApiHide = api_hide s"

section \<open>A concrete page\<close>

text \<open>
  A button \<open>1\<close> bound to the menu \<open>2\<close> with id \<open>m1\<close>.  The menu holds a header \<open>3\<close>, a
  disabled item \<open>4\<close>, an item \<open>5\<close> with \<open>href="#"\<close> and an item \<open>6\<close> that is a link to
  another page; \<open>7\<close> is a paragraph outside the menu, \<open>0\<close> the body.  The viewport is
  1000 by 800 and the menu measures 150 by 100.
\<close>

definition demo_page :: page where
  "demo_page =
     \<lparr>ancestors = (\<lambda>_. [])(1 := [0], 2 := [0], 3 := [2, 0], 4 := [2, 0], 5 := [2, 0],
                                6 := [2, 0], 7 := [0]),
      descendants = (\<lambda>_. [])(0 := [1, 2, 3, 4, 5, 6, 7], 2 := [3, 4, 5, 6]),
      elementById = (\<lambda>_. None)(''m1'' \<mapsto> 2),
      pseudoDisabled = (\<lambda>_. False),
      boundingRect = (\<lambda>_. (0, 0))(2 := (150, 100)),
      innerWidth = 1000,
      innerHeight = 800,
      body = 0,
      attrs = (\<lambda>_. Map.empty)
        (1 := [CONTEXT_MENU_ATTR \<mapsto> ''m1''],
         5 := [''href'' \<mapsto> ''#''],
         6 := [''href'' \<mapsto> ''https://example.com/'']),
      classList = (\<lambda>_. [])
        (2 := [CONTEXT_MENU_CLASS],
         3 := [''dropdown-header''],
         4 := [''dropdown-item'', ''disabled''],
         5 := [''dropdown-item''],
         6 := [''dropdown-item'']),
      styleLeft = (\<lambda>_. None),
      styleTop = (\<lambda>_. None),
      bsContextMenuTrigger = (\<lambda>_. None),
      activeElement = None,
      dispatched = [],
      frameQueue = [],
      activeMenu = None,
      lastRightClickedElement = None\<rparr>"

definition mouse_at :: "elem \<Rightarrow> int \<Rightarrow> int \<Rightarrow> mouse_event" where
  "mouse_at e x y =
     \<lparr>target = e, clientX = x, clientY = y, defaultPrevented = False,
      propagationStopped = False\<rparr>"

definition key_press :: "string \<Rightarrow> key_event" where
  "key_press k = \<lparr>key = k, shiftKey = False, keyDefaultPrevented = False\<rparr>"

text \<open>The page after a secondary click on the button at (100, 50): the menu is open.\<close>

definition demo_open :: page where
  "demo_open = step demo_page (ContextMenuEv (mouse_at 1 100 50))"

text \<open>The page after the secondary click followed by Escape, before any frame.\<close>

definition demo_escaped :: page where
  "demo_escaped = step demo_open (KeyDownEv (key_press ''Escape''))"

text \<open>
  Two variants of the page: one whose elements all measure 0 by 0, as a menu does while
  it is not displayed, and one whose menu is wider than the viewport.
\<close>

definition demo_unmeasured :: page where
  "demo_unmeasured = demo_page\<lparr>boundingRect := (\<lambda>_. (0, 0))\<rparr>"

definition demo_oversized :: page where
  "demo_oversized = demo_page\<lparr>boundingRect := (\<lambda>_. (1200, 100))\<rparr>"

text \<open>
  \<open>BSContextMenu.show('m1', 1200, 50)\<close> immediately followed by \<open>BSContextMenu.hide()\<close>,
  before the next frame: the menu is closed again and the callback of the show is still
  pending.
\<close>

definition demo_stale :: page where
  "demo_stale = step (step demo_unmeasured (ApiShow (ById ''m1'') 1200 50 None)) ApiHide"

section \<open>Unfolding and frame lemmas\<close>

lemmas dom_defs = hasAttribute_def hasClass_def setAttribute_def classList_add_def
  classList_remove_def closest_def contains_def querySelectorAll_def querySelector_def
  enabledItem_def focus_def dispatchEvent_def requestAnimationFrame_def

lemmas lib_defs = adjustMenuPosition_def frameCallback_def showMenu_def hideActiveMenu_def
  handleContextMenu_def handleClickOutside_def focusNextItem_def click_def
  handleKeyDown_def api_show_def api_hide_def animationFrame_def

lemmas demo_defs = demo_page_def demo_open_def demo_escaped_def
  demo_unmeasured_def demo_oversized_def demo_stale_def mouse_at_def key_press_def

subsection \<open>What each operation leaves of the two slots\<close>

lemma hideActiveMenu_last [simp]:
  "lastRightClickedElement (hideActiveMenu s) = lastRightClickedElement s"
  by (simp add: hideActiveMenu_def dom_defs Let_def split: option.splits)

lemma hideActiveMenu_slot_update:
  "hideActiveMenu (s\<lparr>lastRightClickedElement := v\<rparr>)
     = (hideActiveMenu s)\<lparr>lastRightClickedElement := v\<rparr>"
  by (simp add: hideActiveMenu_def dom_defs Let_def split: option.splits)

lemma hideActiveMenu_closed [simp]: "activeMenu (hideActiveMenu s) = None"
  by (simp add: hideActiveMenu_def dom_defs Let_def split: option.splits)

lemma showMenu_last [simp]:
  "lastRightClickedElement (showMenu s menu x y t) = lastRightClickedElement s"
  by (simp add: showMenu_def dom_defs Let_def)

lemma showMenu_open [simp]:
  "activeMenu (showMenu s menu x y t) = Some menu"
  "bsContextMenuTrigger (showMenu s menu x y t) menu = Some t"
  by (simp_all add: showMenu_def dom_defs Let_def)

lemma focusNextItem_last [simp]:
  "lastRightClickedElement (focusNextItem s d) = lastRightClickedElement s"
  by (simp add: focusNextItem_def dom_defs Let_def split: option.splits)

lemma focus_adjust_slots [simp]:
  "activeMenu (focus s e) = activeMenu s"
  "lastRightClickedElement (focus s e) = lastRightClickedElement s"
  "activeMenu (adjustMenuPosition s menu x y) = activeMenu s"
  "lastRightClickedElement (adjustMenuPosition s menu x y) = lastRightClickedElement s"
  by (simp_all add: focus_def adjustMenuPosition_def Let_def)

lemma frameCallback_slots [simp]:
  "lastRightClickedElement (frameCallback s cb) = lastRightClickedElement s"
  "activeMenu (frameCallback s cb) = activeMenu s"
  "dispatched (frameCallback s cb) = dispatched s"
  by (simp_all add: frameCallback_def adjustMenuPosition_def dom_defs Let_def
      split: option.splits prod.splits)

lemma foldl_frameCallback_last:
  "lastRightClickedElement (foldl frameCallback s q) = lastRightClickedElement s"
  by (induction q arbitrary: s) simp_all

lemma animationFrame_last [simp]:
  "lastRightClickedElement (animationFrame s) = lastRightClickedElement s"
  by (simp add: animationFrame_def foldl_frameCallback_last)

lemma api_show_last [simp]:
  "lastRightClickedElement (api_show s r x y t) = lastRightClickedElement s"
  by (simp add: api_show_def split: option.splits menu_ref.splits)






subsection \<open>What show and hide leave of the document\<close>

lemma hideActiveMenu_document [simp]:
  "ancestors (hideActiveMenu s) = ancestors s"
  "descendants (hideActiveMenu s) = descendants s"
  "elementById (hideActiveMenu s) = elementById s"
  "attrs (hideActiveMenu s) e CONTEXT_MENU_ATTR = attrs s e CONTEXT_MENU_ATTR"
  "hasClass (hideActiveMenu s) CONTEXT_MENU_CLASS e = hasClass s CONTEXT_MENU_CLASS e"
  by (simp_all add: hideActiveMenu_def dom_defs Let_def split: option.splits)

lemma showMenu_document [simp]:
  "ancestors (showMenu s menu x y t) = ancestors s"
  "descendants (showMenu s menu x y t) = descendants s"
  "elementById (showMenu s menu x y t) = elementById s"
  "attrs (showMenu s menu x y t) e CONTEXT_MENU_ATTR = attrs s e CONTEXT_MENU_ATTR"
  "hasClass (showMenu s menu x y t) CONTEXT_MENU_CLASS e = hasClass s CONTEXT_MENU_CLASS e"
  by (simp_all add: showMenu_def dom_defs Let_def)

lemma closest_trigger_hide [simp]:
  "closest (hideActiveMenu s) (hasAttribute (hideActiveMenu s) CONTEXT_MENU_ATTR) e
     = closest s (hasAttribute s CONTEXT_MENU_ATTR) e"
proof -
  have "hasAttribute (hideActiveMenu s) CONTEXT_MENU_ATTR = hasAttribute s CONTEXT_MENU_ATTR"
    by (rule ext) (simp add: hasAttribute_def)
  then show ?thesis by (simp add: closest_def)
qed

lemma closest_trigger_show [simp]:
  "closest (showMenu s menu x y t) (hasAttribute (showMenu s menu x y t) CONTEXT_MENU_ATTR) e
     = closest s (hasAttribute s CONTEXT_MENU_ATTR) e"
proof -
  have "hasAttribute (showMenu s menu x y t) CONTEXT_MENU_ATTR
          = hasAttribute s CONTEXT_MENU_ATTR"
    by (rule ext) (simp add: hasAttribute_def)
  then show ?thesis by (simp add: closest_def)
qed

subsection \<open>The two paths of \<open>handleContextMenu\<close> on a bound trigger\<close>

lemma handleContextMenu_first:
  assumes "closest s (hasAttribute s CONTEXT_MENU_ATTR) (target ev) = Some T"
    and "attrs s T CONTEXT_MENU_ATTR = Some menuId" and "menuId \<noteq> []"
    and "elementById s menuId = Some menu" and "hasClass s CONTEXT_MENU_CLASS menu"
    and "lastRightClickedElement s \<noteq> Some T"
  shows "handleContextMenu s ev =
           (showMenu (hideActiveMenu (s\<lparr>lastRightClickedElement := Some T\<rparr>)) menu
              (clientX ev) (clientY ev) T,
            ev\<lparr>defaultPrevented := True, propagationStopped := True\<rparr>)"
  using assms by (simp add: handleContextMenu_def Let_def)

lemma handleContextMenu_second:
  assumes "closest s (hasAttribute s CONTEXT_MENU_ATTR) (target ev) = Some T"
    and "attrs s T CONTEXT_MENU_ATTR = Some menuId" and "menuId \<noteq> []"
    and "elementById s menuId = Some menu" and "hasClass s CONTEXT_MENU_CLASS menu"
    and "lastRightClickedElement s = Some T"
  shows "handleContextMenu s ev = (hideActiveMenu (s\<lparr>lastRightClickedElement := None\<rparr>), ev)"
  using assms by (simp add: handleContextMenu_def Let_def)

subsection \<open>Item clicks\<close>

lemma handleClickOutside_item:
  assumes "activeMenu s = Some menu" and "contains s menu (target ev)"
    and "closest s (hasClass s ''dropdown-item'') (target ev) \<noteq> None"
  shows "handleClickOutside s ev =
           (hideActiveMenu (s\<lparr>lastRightClickedElement := None\<rparr>),
            ev\<lparr>defaultPrevented := True\<rparr>)"
  using assms by (simp add: handleClickOutside_def)

subsection \<open>Index arithmetic of \<open>focusNextItem\<close>\<close>

lemma indexOf_notin: "x \<notin> set xs \<Longrightarrow> indexOf xs x = - 1"
  by (induction xs) auto

lemma indexOf_nth: "distinct xs \<Longrightarrow> k < length xs \<Longrightarrow> indexOf xs (xs ! k) = int k"
proof (induction xs arbitrary: k)
  case Nil
  then show ?case by simp
next
  case (Cons y ys)
  show ?case
  proof (cases k)
    case 0
    then show ?thesis by simp
  next
    case (Suc j)
    with Cons.prems have j: "j < length ys" and d: "distinct ys" and n: "y \<notin> set ys"
      by simp_all
    from j n have "y \<noteq> ys ! j" by (metis nth_mem)
    with Cons.IH [OF d j] Suc show ?thesis by (simp add: Let_def)
  qed
qed

lemma js_rem_nonneg: "0 \<le> a \<Longrightarrow> 0 < b \<Longrightarrow> js_rem a b = a mod b"
  by (cases "a = 0") (simp_all add: js_rem_def)

lemma funpow_twice: "(f ^^ 2) x = f (f x)"
  by (simp add: numeral_2_eq_2)

lemma focus_focus [simp]: "focus (focus s a) b = focus s b"
  by (simp add: focus_def)

lemma focus_items [simp]:
  "querySelectorAll (focus s e) m (enabledItem (focus s e))
     = querySelectorAll s m (enabledItem s)"
proof -
  have "enabledItem (focus s e) = enabledItem s"
    by (rule ext) (simp add: dom_defs)
  then show ?thesis by (simp add: querySelectorAll_def focus_def)
qed

lemma focusNextItem_none:
  assumes "activeMenu s = Some menu" and "items = querySelectorAll s menu (enabledItem s)"
    and "items \<noteq> []" and "\<forall>i\<in>set items. activeElement s \<noteq> Some i"
  shows "focusNextItem s 1 = focus s (items ! 0)"
    and "focusNextItem s (- 1) = focus s (items ! (length items - 1))"
proof -
  have idx: "(case activeElement s of None \<Rightarrow> - 1 | Some a \<Rightarrow> indexOf items a) = - 1"
    using assms(4) by (auto split: option.splits intro: indexOf_notin)
  have len: "0 < length items" using assms(3) by simp
  show "focusNextItem s 1 = focus s (items ! 0)"
    using assms(1) len idx by (simp add: focusNextItem_def Let_def assms(2) [symmetric])
  have "nat (int (length items) - 1) = length items - 1" by simp
  then show "focusNextItem s (- 1) = focus s (items ! (length items - 1))"
    using assms(1) len idx by (simp add: focusNextItem_def Let_def assms(2) [symmetric])
qed

lemma focusNextItem_from:
  assumes "activeMenu s = Some menu" and "items = querySelectorAll s menu (enabledItem s)"
    and "distinct items" and "k < length items" and "activeElement s = Some (items ! k)"
  shows "focusNextItem s 1 = focus s (items ! (Suc k mod length items))"
proof -
  have ne: "items \<noteq> []" using assms(4) by auto
  then have len: "0 < length items" by simp
  have idx: "indexOf items (items ! k) = int k" by (rule indexOf_nth [OF assms(3,4)])
  have r: "js_rem (int k + 1 + int (length items)) (int (length items))
             = int (Suc k mod length items)"
    using len by (simp add: js_rem_nonneg zmod_int add.commute)
  have b: "Suc k mod length items < length items" using len by simp
  show ?thesis
    using assms(1,5) ne idx r b
    by (simp add: focusNextItem_def Let_def assms(2) [symmetric])
qed

text \<open>Whatever the direction, \<open>focus()\<close> is called on nothing or on an enabled item.\<close>

lemma focusNextItem_target:
  "focusNextItem s d = s \<or>
   (\<exists>m e. activeMenu s = Some m \<and> e \<in> set (descendants s m) \<and> enabledItem s e \<and>
          focusNextItem s d = focus s e)"
proof (cases "activeMenu s")
  case None
  then show ?thesis by (simp add: focusNextItem_def)
next
  case (Some m)
  let ?items = "querySelectorAll s m (enabledItem s)"
  have mem: "i < length ?items \<Longrightarrow>
      ?items ! i \<in> set (descendants s m) \<and> enabledItem s (?items ! i)" for i
    using nth_mem [of i ?items] by (simp add: querySelectorAll_def)
  define ci where
    "ci = (case activeElement s of None \<Rightarrow> - 1 | Some a \<Rightarrow> indexOf ?items a)"
  define n where
    "n = (if ci = - 1 then (if d = 1 then 0 else int (length ?items) - 1)
          else js_rem (ci + d + int (length ?items)) (int (length ?items)))"
  have n: "focusNextItem s d =
      (if length ?items = 0 then s
       else if 0 \<le> n \<and> n < int (length ?items) then focus s (?items ! nat n) else s)"
    using Some by (simp add: focusNextItem_def Let_def n_def ci_def)
  show ?thesis
  proof (cases "length ?items \<noteq> 0 \<and> 0 \<le> n \<and> n < int (length ?items)")
    case True
    then have "nat n < length ?items" by linarith
    from mem [OF this] True n Some show ?thesis by auto
  next
    case False
    with n show ?thesis by auto
  qed
qed

text \<open>
  From no item, \<open>k + 1\<close> presses of the down arrow put the focus on the item of index
  \<open>k mod N\<close>.
\<close>

lemma focusNextItem_iterate:
  assumes m: "activeMenu s = Some menu"
    and it: "items = querySelectorAll s menu (enabledItem s)"
    and ne: "items \<noteq> []" and d: "distinct items"
    and none: "\<forall>i\<in>set items. activeElement s \<noteq> Some i"
  shows "((\<lambda>p. focusNextItem p 1) ^^ Suc k) s = focus s (items ! (k mod length items))"
proof (induction k)
  case 0
  show ?case using focusNextItem_none(1) [OF m it ne none] by simp
next
  case (Suc k)
  let ?j = "k mod length items"
  let ?p = "focus s (items ! ?j)"
  have j: "?j < length items" using ne by simp
  have m': "activeMenu ?p = Some menu" using m by (simp add: focus_def)
  have it': "items = querySelectorAll ?p menu (enabledItem ?p)" using it by simp
  have a': "activeElement ?p = Some (items ! ?j)" by (simp add: focus_def)
  have "((\<lambda>p. focusNextItem p 1) ^^ Suc (Suc k)) s = focusNextItem ?p 1"
    using Suc.IH by simp
  also have "\<dots> = focus ?p (items ! (Suc ?j mod length items))"
    by (rule focusNextItem_from [OF m' it' d j a'])
  also have "\<dots> = focus s (items ! (Suc k mod length items))"
    by (simp add: mod_Suc_eq)
  finally show ?case .
qed

subsection \<open>Facts of the concrete page\<close>

lemma demo_open_facts:
  "activeMenu demo_open = Some 2"
  "querySelectorAll demo_open 2 (enabledItem demo_open) = [5, 6]"
  "descendants demo_open 2 = [3, 4, 5, 6]"
  "activeElement demo_open = None"
  "lastRightClickedElement demo_open = Some 1"
  "dispatched demo_open = [Shown 2 1 100 50]"
  "bsContextMenuTrigger demo_open 2 = Some 1"
  by (simp_all add: demo_defs lib_defs dom_defs Let_def)

section \<open>The claims\<close>

subsection \<open>C1: two consecutive secondary clicks on the same trigger\<close>

text \<open>
  Claim C1, as stated, holds of every pair of consecutive secondary clicks on a bound
  trigger.  The outcome depends on what the toggle memory holds when the first click
  arrives, and a hide does not empty it.  On the concrete page, after a secondary click on
  the button and Escape, the menu is closed and the button's attribute still resolves to
  the menu; of the next two secondary clicks on the button the first leaves the menu
  closed and its default action alone, and the second opens the menu and prevents the
  default action.
\<close>

theorem toggle_reversed_after_escape:
  "activeMenu demo_escaped = None \<and>
   closest demo_escaped (hasAttribute demo_escaped CONTEXT_MENU_ATTR) 1 = Some 1 \<and>
   attrs demo_escaped 1 CONTEXT_MENU_ATTR = Some ''m1'' \<and>
   elementById demo_escaped ''m1'' = Some 2 \<and> hasClass demo_escaped CONTEXT_MENU_CLASS 2 \<and>
   activeMenu (fst (handleContextMenu demo_escaped (mouse_at 1 100 50))) = None \<and>
   \<not> hasClass (fst (handleContextMenu demo_escaped (mouse_at 1 100 50))) SHOW_CLASS 2 \<and>
   defaultPrevented (snd (handleContextMenu demo_escaped (mouse_at 1 100 50))) = False \<and>
   activeMenu (fst (handleContextMenu (fst (handleContextMenu demo_escaped (mouse_at 1 100 50)))
                      (mouse_at 1 101 51))) = Some 2 \<and>
   hasClass (fst (handleContextMenu (fst (handleContextMenu demo_escaped (mouse_at 1 100 50)))
                      (mouse_at 1 101 51))) SHOW_CLASS 2 \<and>
   defaultPrevented (snd (handleContextMenu
                      (fst (handleContextMenu demo_escaped (mouse_at 1 100 50)))
                      (mouse_at 1 101 51))) = True"
  by (simp add: demo_defs lib_defs dom_defs Let_def)

text \<open>
  Claim C1, amended.  Let \<open>T\<close> be a trigger whose attribute names a menu container, and let
  the toggle memory not hold \<open>T\<close> when the first of two consecutive secondary clicks on
  \<open>T\<close> arrives (as in the initial state).  After the first click the menu is open with
  \<open>T\<close> as its trigger: it carries the class \<open>show\<close>, \<open>T\<close> is marked expanded, the show
  event is dispatched, the toggle memory holds \<open>T\<close>, and the default action of the event
  is prevented.  After the second click the menu is closed: the class \<open>show\<close> is gone,
  \<open>T\<close> is marked collapsed, the hide event is dispatched, the handler has left the event
  untouched, so its default action is not prevented, and the toggle memory is empty.  The
  two clicks may land on different descendants of \<open>T\<close>.
\<close>

theorem handleContextMenu_toggle:
  assumes t1: "closest s (hasAttribute s CONTEXT_MENU_ATTR) (target ev1) = Some T"
    and t2: "closest s (hasAttribute s CONTEXT_MENU_ATTR) (target ev2) = Some T"
    and a: "attrs s T CONTEXT_MENU_ATTR = Some menuId" and ne: "menuId \<noteq> []"
    and m: "elementById s menuId = Some menu" and c: "hasClass s CONTEXT_MENU_CLASS menu"
    and fresh: "lastRightClickedElement s \<noteq> Some T"
    and e2: "\<not> defaultPrevented ev2"
    and r1: "handleContextMenu s ev1 = (s1, ev1')"
    and r2: "handleContextMenu s1 ev2 = (s2, ev2')"
  shows "s1 = showMenu (hideActiveMenu (s\<lparr>lastRightClickedElement := Some T\<rparr>)) menu
                (clientX ev1) (clientY ev1) T \<and>
         activeMenu s1 = Some menu \<and> bsContextMenuTrigger s1 menu = Some T \<and>
         hasClass s1 SHOW_CLASS menu \<and> attrs s1 T ''aria-expanded'' = Some ''true'' \<and>
         dispatched s1
           = dispatched (hideActiveMenu s) @ [Shown menu T (clientX ev1) (clientY ev1)] \<and>
         lastRightClickedElement s1 = Some T \<and>
         defaultPrevented ev1' \<and> propagationStopped ev1' \<and>
         s2 = hideActiveMenu (s1\<lparr>lastRightClickedElement := None\<rparr>) \<and>
         activeMenu s2 = None \<and> bsContextMenuTrigger s2 menu = None \<and>
         \<not> hasClass s2 SHOW_CLASS menu \<and> attrs s2 T ''aria-expanded'' = Some ''false'' \<and>
         dispatched s2 = dispatched s1 @ [Hidden menu (Some T)] \<and>
         ev2' = ev2 \<and> \<not> defaultPrevented ev2' \<and>
         lastRightClickedElement s2 = None"
proof -
  let ?s0 = "s\<lparr>lastRightClickedElement := Some T\<rparr>"
  have s1: "s1 = showMenu (hideActiveMenu ?s0) menu (clientX ev1) (clientY ev1) T"
    and ev1': "ev1' = ev1\<lparr>defaultPrevented := True, propagationStopped := True\<rparr>"
    using handleContextMenu_first [OF t1 a ne m c fresh] r1 by simp_all
  have h0: "hasAttribute ?s0 CONTEXT_MENU_ATTR = hasAttribute s CONTEXT_MENU_ATTR"
    by (rule ext) (simp add: hasAttribute_def)
  have t2': "closest s1 (hasAttribute s1 CONTEXT_MENU_ATTR) (target ev2) = Some T"
    using t2 by (simp add: s1) (simp add: closest_def h0)
  have a': "attrs s1 T CONTEXT_MENU_ATTR = Some menuId" using a by (simp add: s1)
  have m': "elementById s1 menuId = Some menu" using m by (simp add: s1)
  have c': "hasClass s1 CONTEXT_MENU_CLASS menu"
    using c by (simp add: s1) (simp add: hasClass_def)
  have l': "lastRightClickedElement s1 = Some T" by (simp add: s1)
  have "handleContextMenu s1 ev2 = (hideActiveMenu (s1\<lparr>lastRightClickedElement := None\<rparr>), ev2)"
    by (rule handleContextMenu_second [OF t2' a' ne m' c' l'])
  with r2 have s2: "s2 = hideActiveMenu (s1\<lparr>lastRightClickedElement := None\<rparr>)"
    and ev2': "ev2' = ev2" by simp_all
  have o1: "activeMenu s1 = Some menu" "bsContextMenuTrigger s1 menu = Some T"
    by (simp_all add: s1)
  have o2: "hasClass s1 SHOW_CLASS menu" "attrs s1 T ''aria-expanded'' = Some ''true''"
    by (simp_all add: s1 showMenu_def dom_defs Let_def)
  have o3: "dispatched s1
      = dispatched (hideActiveMenu s) @ [Shown menu T (clientX ev1) (clientY ev1)]"
    by (simp add: s1 hideActiveMenu_slot_update) (simp add: showMenu_def dom_defs Let_def)
  have c1: "activeMenu s2 = None" "lastRightClickedElement s2 = None"
    by (simp_all add: s2)
  have c2: "bsContextMenuTrigger s2 menu = None" "\<not> hasClass s2 SHOW_CLASS menu"
    "attrs s2 T ''aria-expanded'' = Some ''false''"
    "dispatched s2 = dispatched s1 @ [Hidden menu (Some T)]"
    using o1 by (simp_all add: s2 hideActiveMenu_def dom_defs Let_def)
  show ?thesis
    using s1 s2 o1 o2 o3 c1 c2 l' ev2' e2 by (simp add: ev1')
qed

text \<open>On the concrete page: two secondary clicks on the button, from the initial state.\<close>

theorem handleContextMenu_toggle_witness:
  "closest demo_page (hasAttribute demo_page CONTEXT_MENU_ATTR) 1 = Some 1 \<and>
   attrs demo_page 1 CONTEXT_MENU_ATTR = Some ''m1'' \<and>
   elementById demo_page ''m1'' = Some 2 \<and> hasClass demo_page CONTEXT_MENU_CLASS 2 \<and>
   lastRightClickedElement demo_page \<noteq> Some 1 \<and>
   activeMenu (fst (handleContextMenu demo_page (mouse_at 1 100 50))) = Some 2 \<and>
   bsContextMenuTrigger (fst (handleContextMenu demo_page (mouse_at 1 100 50))) 2 = Some 1 \<and>
   hasClass (fst (handleContextMenu demo_page (mouse_at 1 100 50))) SHOW_CLASS 2 \<and>
   dispatched (fst (handleContextMenu demo_page (mouse_at 1 100 50)))
     = [Shown 2 1 100 50] \<and>
   defaultPrevented (snd (handleContextMenu demo_page (mouse_at 1 100 50))) \<and>
   activeMenu (fst (handleContextMenu (fst (handleContextMenu demo_page (mouse_at 1 100 50)))
                      (mouse_at 1 101 51))) = None \<and>
   \<not> hasClass (fst (handleContextMenu (fst (handleContextMenu demo_page (mouse_at 1 100 50)))
                      (mouse_at 1 101 51))) SHOW_CLASS 2 \<and>
   dispatched (fst (handleContextMenu (fst (handleContextMenu demo_page (mouse_at 1 100 50)))
                      (mouse_at 1 101 51)))
     = [Shown 2 1 100 50, Hidden 2 (Some 1)] \<and>
   \<not> defaultPrevented (snd (handleContextMenu
                      (fst (handleContextMenu demo_page (mouse_at 1 100 50)))
                      (mouse_at 1 101 51))) \<and>
   lastRightClickedElement (fst (handleContextMenu
                      (fst (handleContextMenu demo_page (mouse_at 1 100 50)))
                      (mouse_at 1 101 51))) = None"
proof -
  have t1: "closest demo_page (hasAttribute demo_page CONTEXT_MENU_ATTR)
              (target (mouse_at 1 100 50)) = Some 1"
    by (simp add: demo_defs dom_defs)
  have t2: "closest demo_page (hasAttribute demo_page CONTEXT_MENU_ATTR)
              (target (mouse_at 1 101 51)) = Some 1"
    by (simp add: demo_defs dom_defs)
  have a: "attrs demo_page 1 CONTEXT_MENU_ATTR = Some ''m1''" by (simp add: demo_defs)
  have ne: "''m1'' \<noteq> []" by simp
  have m: "elementById demo_page ''m1'' = Some 2" by (simp add: demo_defs)
  have c: "hasClass demo_page CONTEXT_MENU_CLASS 2" by (simp add: demo_defs dom_defs)
  have fresh: "lastRightClickedElement demo_page \<noteq> Some 1" by (simp add: demo_defs)
  have e2: "\<not> defaultPrevented (mouse_at 1 101 51)" by (simp add: mouse_at_def)
  have h: "dispatched (hideActiveMenu demo_page) = []"
    by (simp add: demo_defs hideActiveMenu_def)
  note r = handleContextMenu_toggle
        [OF t1 t2 a ne m c fresh e2 surjective_pairing surjective_pairing]
  have x: "clientX (mouse_at 1 100 50) = 100" "clientY (mouse_at 1 100 50) = 50"
    by (simp_all add: mouse_at_def)
  let ?s1 = "fst (handleContextMenu demo_page (mouse_at 1 100 50))"
  let ?e1 = "snd (handleContextMenu demo_page (mouse_at 1 100 50))"
  let ?s2 = "fst (handleContextMenu ?s1 (mouse_at 1 101 51))"
  let ?e2 = "snd (handleContextMenu ?s1 (mouse_at 1 101 51))"
  from r have d0: "dispatched ?s1 = dispatched (hideActiveMenu demo_page)
      @ [Shown 2 1 (clientX (mouse_at 1 100 50)) (clientY (mouse_at 1 100 50))]"
    by blast
  have d1: "dispatched ?s1 = [Shown 2 1 100 50]"
    using d0 h x by simp
  from r have "dispatched ?s2 = dispatched ?s1 @ [Hidden 2 (Some 1)]"
    by blast
  then have d2: "dispatched ?s2 = [Shown 2 1 100 50, Hidden 2 (Some 1)]"
    using d1 by simp
  from r have r': "activeMenu ?s1 = Some 2 \<and> bsContextMenuTrigger ?s1 2 = Some 1 \<and>
      hasClass ?s1 SHOW_CLASS 2 \<and> defaultPrevented ?e1 \<and> activeMenu ?s2 = None \<and>
      \<not> hasClass ?s2 SHOW_CLASS 2 \<and> \<not> defaultPrevented ?e2 \<and>
      lastRightClickedElement ?s2 = None"
    by blast
  have t: "closest demo_page (hasAttribute demo_page CONTEXT_MENU_ATTR) 1 = Some 1"
    using t1 by (simp add: mouse_at_def)
  show ?thesis
    by (intro conjI t a m c fresh d1 d2 r' [THEN conjunct1]
        r' [THEN conjunct2, THEN conjunct1]
        r' [THEN conjunct2, THEN conjunct2, THEN conjunct1]
        r' [THEN conjunct2, THEN conjunct2, THEN conjunct2, THEN conjunct1]
        r' [THEN conjunct2, THEN conjunct2, THEN conjunct2, THEN conjunct2, THEN conjunct1]
        r' [THEN conjunct2, THEN conjunct2, THEN conjunct2, THEN conjunct2, THEN conjunct2,
            THEN conjunct1]
        r' [THEN conjunct2, THEN conjunct2, THEN conjunct2, THEN conjunct2, THEN conjunct2,
            THEN conjunct2, THEN conjunct1]
        r' [THEN conjunct2, THEN conjunct2, THEN conjunct2, THEN conjunct2, THEN conjunct2,
            THEN conjunct2, THEN conjunct2])
qed

subsection \<open>C2: when the toggle memory is written\<close>




subsection \<open>C3: the deferred callback of a show\<close>

text \<open>
  Claim C3, as stated, makes the deferred callback a no-op once its menu is no longer the
  active one.  The callback reads neither slot.  On the concrete page the API shows the
  menu at x = 1200, beyond the viewport, and hides it before the next frame; the pending
  callback then runs against the closed menu, moves its left coordinate from 1200 to 995
  and calls \<open>focus()\<close> on the menu's first enabled item.
\<close>

theorem frameCallback_after_hide:
  "activeMenu demo_stale = None \<and> \<not> hasClass demo_stale SHOW_CLASS 2 \<and>
   dispatched demo_stale = [Shown 2 0 1200 50, Hidden 2 (Some 0)] \<and>
   frameQueue demo_stale = [(2, 1200, 50)] \<and>
   styleLeft demo_stale 2 = Some 1200 \<and>
   styleLeft (step demo_stale AnimationFrame) 2 = Some 995 \<and>
   step demo_stale AnimationFrame
     = focus (adjustMenuPosition (demo_stale\<lparr>frameQueue := []\<rparr>) 2 1200 50) 5 \<and>
   step demo_stale AnimationFrame \<noteq> demo_stale\<lparr>frameQueue := []\<rparr>"
proof -
  have a: "activeMenu demo_stale = None \<and> \<not> hasClass demo_stale SHOW_CLASS 2 \<and>
     dispatched demo_stale = [Shown 2 0 1200 50, Hidden 2 (Some 0)] \<and>
     frameQueue demo_stale = [(2, 1200, 50)] \<and> styleLeft demo_stale 2 = Some 1200"
    by (simp add: demo_defs lib_defs dom_defs Let_def)
  have q: "querySelector (adjustMenuPosition (demo_stale\<lparr>frameQueue := []\<rparr>) 2 1200 50) 2
             (enabledItem (adjustMenuPosition (demo_stale\<lparr>frameQueue := []\<rparr>) 2 1200 50))
           = Some 5"
    by (simp add: demo_defs lib_defs dom_defs Let_def)
  have b: "step demo_stale AnimationFrame
     = focus (adjustMenuPosition (demo_stale\<lparr>frameQueue := []\<rparr>) 2 1200 50) 5"
    using a q by (simp add: animationFrame_def frameCallback_def Let_def)
  have c: "styleLeft (step demo_stale AnimationFrame) 2 = Some 995"
    unfolding b by (simp add: demo_defs lib_defs dom_defs Let_def)
  have "styleLeft (step demo_stale AnimationFrame) 2
          \<noteq> styleLeft (demo_stale\<lparr>frameQueue := []\<rparr>) 2"
    using a c by simp
  then have d: "step demo_stale AnimationFrame \<noteq> demo_stale\<lparr>frameQueue := []\<rparr>"
    by metis
  show ?thesis using a b c d by simp
qed

text \<open>
  Claim C3, amended.  The deferred callback runs unconditionally: whatever the open-menu
  slot holds when it fires, it writes the adjusted position of the menu it was scheduled
  for and calls \<open>focus()\<close> on that menu's first enabled item, if there is one.  It changes
  neither slot and dispatches nothing.
\<close>

theorem frameCallback_unconditional:
  "frameCallback (s\<lparr>activeMenu := a\<rparr>) (menu, x, y)
     = (frameCallback s (menu, x, y))\<lparr>activeMenu := a\<rparr> \<and>
   activeMenu (frameCallback s (menu, x, y)) = activeMenu s \<and>
   lastRightClickedElement (frameCallback s (menu, x, y)) = lastRightClickedElement s \<and>
   dispatched (frameCallback s (menu, x, y)) = dispatched s \<and>
   (querySelector s menu (enabledItem s) = Some item \<longrightarrow>
      frameCallback s (menu, x, y) = focus (adjustMenuPosition s menu x y) item) \<and>
   (querySelector s menu (enabledItem s) = None \<longrightarrow>
      frameCallback s (menu, x, y) = adjustMenuPosition s menu x y)"
proof -
  have e: "enabledItem (adjustMenuPosition s' menu x y) = enabledItem s'" for s'
    by (rule ext) (simp add: adjustMenuPosition_def dom_defs Let_def)
  have q: "querySelector (adjustMenuPosition s' menu x y) menu f = querySelector s' menu f"
    for s' f
    by (simp add: adjustMenuPosition_def dom_defs Let_def)
  have ea: "enabledItem (s\<lparr>activeMenu := a\<rparr>) = enabledItem s"
    by (rule ext) (simp add: dom_defs)
  have qa: "querySelector (s\<lparr>activeMenu := a\<rparr>) menu f = querySelector s menu f" for f
    by (simp add: dom_defs)
  show ?thesis
    by (simp add: frameCallback_def Let_def e q ea qa split: option.splits)
      (simp add: adjustMenuPosition_def focus_def Let_def)
qed

theorem frameCallback_unconditional_witness:
  "activeMenu demo_escaped = None \<and>
   querySelector demo_escaped 2 (enabledItem demo_escaped) = Some 5 \<and>
   frameCallback demo_escaped (2, 100, 50)
     = focus (adjustMenuPosition demo_escaped 2 100 50) 5 \<and>
   activeMenu (frameCallback demo_escaped (2, 100, 50)) = None \<and>
   querySelector demo_escaped 7 (enabledItem demo_escaped) = None \<and>
   frameCallback demo_escaped (7, 100, 50) = adjustMenuPosition demo_escaped 7 100 50"
proof -
  have a: "querySelector demo_escaped 2 (enabledItem demo_escaped) = Some 5"
    by (simp add: demo_defs lib_defs dom_defs Let_def)
  have b: "querySelector demo_escaped 7 (enabledItem demo_escaped) = None"
    by (simp add: demo_defs lib_defs dom_defs Let_def)
  have c: "activeMenu demo_escaped = None"
    by (simp add: demo_escaped_def handleKeyDown_def key_press_def split: option.splits)
  show ?thesis
    using a b c
      frameCallback_unconditional
        [where s = demo_escaped and menu = 2 and x = 100 and y = 50 and item = 5]
      frameCallback_unconditional
        [where s = demo_escaped and menu = 7 and x = 100 and y = 50]
    by simp
qed

subsection \<open>C4: a primary click on an item of the open menu\<close>

text \<open>
  Claim C4.  The handler calls \<open>preventDefault\<close> on every click that lands on an item of
  the open menu, whatever the item's \<open>href\<close>.  On the concrete page item 6 is a link to
  another page; a primary click on it while the menu is open empties the toggle memory
  and closes the menu, as the claim says, and prevents the default action of the event,
  which the claim says it does not.
\<close>

theorem item_click_prevents_link_default:
  "activeMenu demo_open = Some 2 \<and> contains demo_open 2 6 \<and>
   hasClass demo_open ''dropdown-item'' 6 \<and>
   attrs demo_open 6 ''href'' = Some ''https://example.com/'' \<and>
   defaultPrevented (mouse_at 6 120 60) = False \<and>
   defaultPrevented (snd (handleClickOutside demo_open (mouse_at 6 120 60))) = True \<and>
   activeMenu (fst (handleClickOutside demo_open (mouse_at 6 120 60))) = None \<and>
   lastRightClickedElement (fst (handleClickOutside demo_open (mouse_at 6 120 60))) = None"
  by (simp add: demo_defs lib_defs dom_defs Let_def)

subsection \<open>C5: an overflowing box\<close>

text \<open>
  Claim C5, as stated, bounds the edge sum by the viewport for every overflowing box.  A
  box wider than the viewport is placed at 0 and still overflows: width 1200 in a viewport
  of 1000, anchored at x = 10, gets x = 0 and a right edge at 1200.
\<close>

theorem adjustMenuPosition_oversized:
  "boundingRect demo_oversized 2 = (1200, 100) \<and> innerWidth demo_oversized = 1000 \<and>
   10 + 1200 > innerWidth demo_oversized \<and>
   styleLeft (adjustMenuPosition demo_oversized 2 10 50) 2 = Some 0 \<and>
   \<not> (0 + 1200 \<le> innerWidth demo_oversized)"
  by (simp add: demo_oversized_def demo_page_def adjustMenuPosition_def)

text \<open>
  Claim C5, amended.  On an axis where the box overflows from the anchor, the returned
  coordinate is the larger of 0 and viewport minus size minus 5, so it is never negative;
  when size plus 5 fits the viewport the edge sum is exactly the viewport minus 5, and
  when the size fits the viewport the edge sum does not exceed it.  In particular x = 990
  with width 150 in a viewport 1000 wide gives 845.
\<close>

theorem adjustMenuPosition_overflow:
  assumes "boundingRect s menu = (w, h)" and "s' = adjustMenuPosition s menu x y"
  shows "(x + w > innerWidth s \<longrightarrow>
            (\<exists>nx. styleLeft s' menu = Some nx \<and> nx = max 0 (innerWidth s - w - 5) \<and>
                  0 \<le> nx \<and>
                  (w + 5 \<le> innerWidth s \<longrightarrow> nx + w = innerWidth s - 5) \<and>
                  (w \<le> innerWidth s \<longrightarrow> nx + w \<le> innerWidth s))) \<and>
         (y + h > innerHeight s \<longrightarrow>
            (\<exists>ny. styleTop s' menu = Some ny \<and> ny = max 0 (innerHeight s - h - 5) \<and>
                  0 \<le> ny \<and>
                  (h + 5 \<le> innerHeight s \<longrightarrow> ny + h = innerHeight s - 5) \<and>
                  (h \<le> innerHeight s \<longrightarrow> ny + h \<le> innerHeight s)))"
  using assms by (auto simp add: adjustMenuPosition_def Let_def max_def)

theorem adjustMenuPosition_overflow_witness:
  "boundingRect demo_page 2 = (150, 100) \<and> 990 + 150 > innerWidth demo_page \<and>
   750 + 100 > innerHeight demo_page \<and> 150 + 5 \<le> innerWidth demo_page \<and>
   100 + 5 \<le> innerHeight demo_page \<and>
   styleLeft (adjustMenuPosition demo_page 2 990 750) 2 = Some 845 \<and>
   styleTop (adjustMenuPosition demo_page 2 990 750) 2 = Some 695 \<and>
   845 + 150 = innerWidth demo_page - 5 \<and> 695 + 100 = innerHeight demo_page - 5"
proof -
  have r: "boundingRect demo_page 2 = (150, 100)" by (simp add: demo_page_def)
  show ?thesis
    using r adjustMenuPosition_overflow [OF r refl, of 990 750] by (simp add: demo_page_def)
qed

subsection \<open>C6: a box that fits, and a box of size zero\<close>

text \<open>
  Claim C6, as stated, has a box of size zero leave every anchor as it is.  The code has
  no case for a zero size: an anchor beyond the right edge overflows even with width 0,
  and x = 1200 in a viewport 1000 wide becomes 995.
\<close>

theorem adjustMenuPosition_zero_box_offscreen:
  "boundingRect demo_unmeasured 2 = (0, 0) \<and> innerWidth demo_unmeasured = 1000 \<and>
   styleLeft (adjustMenuPosition demo_unmeasured 2 1200 50) 2 = Some 995 \<and>
   styleTop (adjustMenuPosition demo_unmeasured 2 1200 50) 2 = Some 50"
  by (simp add: demo_unmeasured_def demo_page_def adjustMenuPosition_def)

text \<open>
  Claim C6, amended.  On an axis where the box fits within the viewport from the anchor,
  the anchor coordinate is returned unchanged.  A box of size zero leaves the anchor as
  it is when the anchor lies within the viewport; a coordinate of the anchor beyond the
  viewport is moved to 5 inside the edge (or to 0) even for a box of size zero.
\<close>

theorem adjustMenuPosition_fits:
  assumes "boundingRect s menu = (w, h)" and "s' = adjustMenuPosition s menu x y"
  shows "(x + w \<le> innerWidth s \<longrightarrow> styleLeft s' menu = Some x) \<and>
         (y + h \<le> innerHeight s \<longrightarrow> styleTop s' menu = Some y) \<and>
         (w = 0 \<and> h = 0 \<and> x \<le> innerWidth s \<and> y \<le> innerHeight s \<longrightarrow>
            styleLeft s' menu = Some x \<and> styleTop s' menu = Some y) \<and>
         (w = 0 \<and> x > innerWidth s \<longrightarrow>
            styleLeft s' menu = Some (max 0 (innerWidth s - 5))) \<and>
         (h = 0 \<and> y > innerHeight s \<longrightarrow>
            styleTop s' menu = Some (max 0 (innerHeight s - 5)))"
  using assms by (auto simp add: adjustMenuPosition_def Let_def)

theorem adjustMenuPosition_fits_witness:
  "boundingRect demo_page 2 = (150, 100) \<and> 100 + 150 \<le> innerWidth demo_page \<and>
   50 + 100 \<le> innerHeight demo_page \<and>
   styleLeft (adjustMenuPosition demo_page 2 100 50) 2 = Some 100 \<and>
   styleTop (adjustMenuPosition demo_page 2 100 50) 2 = Some 50 \<and>
   boundingRect demo_unmeasured 2 = (0, 0) \<and>
   styleLeft (adjustMenuPosition demo_unmeasured 2 100 50) 2 = Some 100 \<and>
   styleTop (adjustMenuPosition demo_unmeasured 2 100 50) 2 = Some 50 \<and>
   1200 > innerWidth demo_unmeasured \<and> 900 > innerHeight demo_unmeasured \<and>
   styleLeft (adjustMenuPosition demo_unmeasured 2 1200 900) 2 = Some 995 \<and>
   styleTop (adjustMenuPosition demo_unmeasured 2 1200 900) 2 = Some 795"
proof -
  have r: "boundingRect demo_page 2 = (150, 100)" by (simp add: demo_page_def)
  have z: "boundingRect demo_unmeasured 2 = (0, 0)" by (simp add: demo_unmeasured_def)
  show ?thesis
    using r z adjustMenuPosition_fits [OF r refl, of 100 50]
      adjustMenuPosition_fits [OF z refl, of 100 50]
      adjustMenuPosition_fits [OF z refl, of 1200 900]
    by (simp add: demo_page_def demo_unmeasured_def)
qed

subsection \<open>C7: the cycle of the down arrow\<close>

text \<open>
  Claim C7, as stated, has N applications from no item end on the item the first one
  selected.  They end one step short of it: with the two enabled items 5 and 6 of the
  concrete page, the first application selects 5 and the second, which is the N-th,
  selects 6.
\<close>

theorem focusNextItem_twice_of_two:
  "activeMenu demo_open = Some 2 \<and> activeElement demo_open = None \<and>
   querySelectorAll demo_open 2 (enabledItem demo_open) = [5, 6] \<and>
   activeElement (focusNextItem demo_open 1) = Some 5 \<and>
   activeElement (focusNextItem (focusNextItem demo_open 1) 1) = Some 6 \<and>
   activeElement (((\<lambda>p. focusNextItem p 1) ^^ 2) demo_open) = Some 6"
proof -
  have a: "focusNextItem demo_open 1 = focus demo_open 5"
    by (simp add: focusNextItem_def demo_open_facts Let_def)
  have m: "activeMenu (focus demo_open 5) = Some 2"
    by (simp add: focus_def demo_open_facts)
  have it: "[5, 6] = querySelectorAll (focus demo_open 5) 2 (enabledItem (focus demo_open 5))"
    by (simp add: demo_open_facts)
  have e: "activeElement (focus demo_open 5) = Some ([5, 6] ! 0)"
    by (simp add: focus_def)
  have b: "focusNextItem (focus demo_open 5) 1 = focus demo_open 6"
    using focusNextItem_from [OF m it _ _ e] by simp
  show ?thesis
    by (simp add: funpow_twice a b demo_open_facts) (simp add: focus_def)
qed

text \<open>
  Claim C7, amended.  For the N enabled items of the open menu (N at least 1, the
  menu's descendants being distinct elements), starting with the focus on none of them:
  the first application of direction +1 selects the first item, N further applications
  return to that item, and N applications in all end on the last item.
\<close>

theorem focusNextItem_cycle:
  assumes m: "activeMenu s = Some menu"
    and it: "items = querySelectorAll s menu (enabledItem s)"
    and ne: "items \<noteq> []" and d: "distinct (descendants s menu)"
    and none: "\<forall>i\<in>set items. activeElement s \<noteq> Some i"
  shows "activeElement (focusNextItem s 1) = Some (items ! 0) \<and>
         activeElement (((\<lambda>p. focusNextItem p 1) ^^ length items) (focusNextItem s 1))
           = Some (items ! 0) \<and>
         activeElement (((\<lambda>p. focusNextItem p 1) ^^ length items) s)
           = Some (items ! (length items - 1))"
proof -
  have di: "distinct items" using d by (simp add: it querySelectorAll_def)
  note iter = focusNextItem_iterate [OF m it ne di none]
  have first: "focusNextItem s 1 = focus s (items ! 0)" using iter [of 0] by simp
  have "((\<lambda>p. focusNextItem p 1) ^^ length items) (focusNextItem s 1)
          = ((\<lambda>p. focusNextItem p 1) ^^ Suc (length items)) s"
    using funpow_swap1 [of "\<lambda>p. focusNextItem p 1" "length items" s] by simp
  then have again: "((\<lambda>p. focusNextItem p 1) ^^ length items) (focusNextItem s 1)
          = focus s (items ! 0)"
    using iter [of "length items"] by simp
  have "length items = Suc (length items - 1)" using ne by simp
  then have "((\<lambda>p. focusNextItem p 1) ^^ length items) s
          = ((\<lambda>p. focusNextItem p 1) ^^ Suc (length items - 1)) s"
    by simp
  then have last: "((\<lambda>p. focusNextItem p 1) ^^ length items) s
          = focus s (items ! (length items - 1))"
    using iter [of "length items - 1"] ne by simp
  have r1: "activeElement (focusNextItem s 1) = Some (items ! 0)"
    unfolding first by (simp add: focus_def)
  have r2: "activeElement (((\<lambda>p. focusNextItem p 1) ^^ length items) (focusNextItem s 1))
              = Some (items ! 0)"
    unfolding again by (simp add: focus_def)
  have r3: "activeElement (((\<lambda>p. focusNextItem p 1) ^^ length items) s)
              = Some (items ! (length items - 1))"
    unfolding last by (simp add: focus_def)
  show ?thesis by (intro conjI r1 r2 r3)
qed

theorem focusNextItem_cycle_witness:
  "activeMenu demo_open = Some 2 \<and>
   querySelectorAll demo_open 2 (enabledItem demo_open) = [5, 6] \<and>
   distinct (descendants demo_open 2) \<and> activeElement demo_open = None \<and>
   activeElement (focusNextItem demo_open 1) = Some 5 \<and>
   activeElement (((\<lambda>p. focusNextItem p 1) ^^ 2) (focusNextItem demo_open 1)) = Some 5 \<and>
   activeElement (((\<lambda>p. focusNextItem p 1) ^^ 2) demo_open) = Some 6"
proof -
  have it: "[5, 6] = querySelectorAll demo_open 2 (enabledItem demo_open)"
    by (simp add: demo_open_facts)
  have ne: "[5, 6 :: elem] \<noteq> []" by simp
  have d: "distinct (descendants demo_open 2)" by (simp add: demo_open_facts)
  have none: "\<forall>i\<in>set [5, 6]. activeElement demo_open \<noteq> Some i"
    by (simp add: demo_open_facts)
  show ?thesis
    using d focusNextItem_cycle [OF demo_open_facts(1) it ne d none]
    by (simp add: demo_open_facts funpow_twice)
qed

subsection \<open>C8: the first selection, and disabled items\<close>

text \<open>
  Claim C8.  With N enabled items in the open menu (N at least 1) and the focus on none
  of them, direction +1 calls \<open>focus()\<close> on the item of index 0 and direction -1 on the
  item of index N - 1.  For every page and every direction, \<open>focusNextItem\<close> either does
  nothing or calls \<open>focus()\<close> on a descendant of the open menu that is a dropdown item,
  does not carry the class \<open>disabled\<close> and is not \<open>:disabled\<close>.
\<close>

theorem focusNextItem_from_none:
  "(activeMenu s = Some menu \<and> items = querySelectorAll s menu (enabledItem s) \<and>
    items \<noteq> [] \<and> (\<forall>i\<in>set items. activeElement s \<noteq> Some i) \<longrightarrow>
      focusNextItem s 1 = focus s (items ! 0) \<and>
      focusNextItem s (- 1) = focus s (items ! (length items - 1))) \<and>
   (focusNextItem s d = s \<or>
    (\<exists>m e. activeMenu s = Some m \<and> e \<in> set (descendants s m) \<and>
           hasClass s ''dropdown-item'' e \<and> \<not> hasClass s ''disabled'' e \<and>
           \<not> pseudoDisabled s e \<and> focusNextItem s d = focus s e))"
proof (intro conjI impI)
  assume h: "activeMenu s = Some menu \<and> items = querySelectorAll s menu (enabledItem s) \<and>
    items \<noteq> [] \<and> (\<forall>i\<in>set items. activeElement s \<noteq> Some i)"
  then show "focusNextItem s 1 = focus s (items ! 0)"
    using focusNextItem_none(1) [of s menu items] by blast
  from h show "focusNextItem s (- 1) = focus s (items ! (length items - 1))"
    using focusNextItem_none(2) [of s menu items] by blast
next
  show "focusNextItem s d = s \<or>
    (\<exists>m e. activeMenu s = Some m \<and> e \<in> set (descendants s m) \<and>
           hasClass s ''dropdown-item'' e \<and> \<not> hasClass s ''disabled'' e \<and>
           \<not> pseudoDisabled s e \<and> focusNextItem s d = focus s e)"
    using focusNextItem_target [of s d] by (simp add: enabledItem_def)
qed

theorem focusNextItem_from_none_witness:
  "activeMenu demo_open = Some 2 \<and>
   querySelectorAll demo_open 2 (enabledItem demo_open) = [5, 6] \<and>
   activeElement demo_open = None \<and>
   focusNextItem demo_open 1 = focus demo_open 5 \<and>
   focusNextItem demo_open (- 1) = focus demo_open 6 \<and>
   hasClass demo_open ''disabled'' 4 \<and>
   focusNextItem demo_open 1 \<noteq> focus demo_open 4 \<and>
   focusNextItem demo_open (- 1) \<noteq> focus demo_open 4"
proof -
  have h: "hasClass demo_open ''disabled'' 4"
    by (simp add: demo_defs lib_defs dom_defs Let_def)
  have n: "focus demo_open 5 \<noteq> focus demo_open 4" "focus demo_open 6 \<noteq> focus demo_open 4"
  proof -
    have "activeElement (focus demo_open 5) \<noteq> activeElement (focus demo_open 4)"
      by (simp add: focus_def)
    then show "focus demo_open 5 \<noteq> focus demo_open 4" by metis
    have "activeElement (focus demo_open 6) \<noteq> activeElement (focus demo_open 4)"
      by (simp add: focus_def)
    then show "focus demo_open 6 \<noteq> focus demo_open 4" by metis
  qed
  show ?thesis
    using h n focusNextItem_from_none [of demo_open 2 "[5, 6]" 1]
    by (simp add: demo_open_facts)
qed

subsection \<open>C9: hide is idempotent\<close>

text \<open>
  Claim C9.  A second \<open>hideActiveMenu\<close> in a row changes nothing: the page is the one the
  first call left, closed, with the same dispatched events.  With no menu open the call
  returns the page as it is.  From an open menu, the first call dispatches exactly one
  hide event.
\<close>

theorem hideActiveMenu_idempotent:
  "hideActiveMenu (hideActiveMenu s) = hideActiveMenu s \<and>
   activeMenu (hideActiveMenu s) = None \<and>
   dispatched (hideActiveMenu (hideActiveMenu s)) = dispatched (hideActiveMenu s) \<and>
   (activeMenu s = None \<longrightarrow> hideActiveMenu s = s) \<and>
   (activeMenu s = Some m \<longrightarrow>
      dispatched (hideActiveMenu s) = dispatched s @ [Hidden m (bsContextMenuTrigger s m)])"
  by (simp add: hideActiveMenu_def dom_defs Let_def split: option.splits)

theorem hideActiveMenu_idempotent_witness:
  "activeMenu demo_page = None \<and> hideActiveMenu demo_page = demo_page \<and>
   activeMenu demo_open = Some 2 \<and> activeMenu (hideActiveMenu demo_open) = None \<and>
   hideActiveMenu (hideActiveMenu demo_open) = hideActiveMenu demo_open \<and>
   dispatched (hideActiveMenu (hideActiveMenu demo_open))
     = [Shown 2 1 100 50, Hidden 2 (Some 1)]"
proof -
  have a: "activeMenu demo_page = None" by (simp add: demo_page_def)
  show ?thesis
    using a demo_open_facts(1,6,7)
      hideActiveMenu_idempotent [of demo_page] hideActiveMenu_idempotent [of demo_open 2]
    by simp
qed

subsection \<open>C10: a primary click inside the menu, off every item\<close>

text \<open>
  Claim C10.  When a menu is open and the click target lies inside it but neither the
  target nor any of its ancestors is a dropdown item, \<open>handleClickOutside\<close> returns the
  page and the event as they are: the menu stays open, nothing is dispatched, and the
  toggle memory is unchanged.
\<close>

theorem handleClickOutside_inside_non_item:
  assumes "activeMenu s = Some menu" and "contains s menu (target ev)"
    and "closest s (hasClass s ''dropdown-item'') (target ev) = None"
  shows "handleClickOutside s ev = (s, ev)"
  using assms by (simp add: handleClickOutside_def)

theorem handleClickOutside_inside_non_item_witness:
  "activeMenu demo_open = Some 2 \<and> contains demo_open 2 3 \<and>
   closest demo_open (hasClass demo_open ''dropdown-item'') 3 = None \<and>
   handleClickOutside demo_open (mouse_at 3 120 60) = (demo_open, mouse_at 3 120 60)"
proof -
  have b: "contains demo_open 2 (target (mouse_at 3 120 60))"
    by (simp add: demo_defs lib_defs dom_defs Let_def)
  have c: "closest demo_open (hasClass demo_open ''dropdown-item'')
             (target (mouse_at 3 120 60)) = None"
    by (simp add: demo_defs lib_defs dom_defs Let_def)
  show ?thesis
    using b c handleClickOutside_inside_non_item [OF demo_open_facts(1) b c]
    by (simp add: mouse_at_def demo_open_facts)
qed

end
